theory Spec2Isabelle
  imports Complex_Main
begin

section \<open>Python values\<close>

text \<open>
  The module \<^verbatim>\<open>scribdl/content/audiobook.py\<close> works on Python strings and on the
  objects that \<^verbatim>\<open>json.loads\<close> returns. A Python \<^verbatim>\<open>str\<close> is a \<open>string\<close>; every
  delimiter the module looks at (\<^verbatim>\<open>/\<close>, \<^verbatim>\<open>-\<close>, space, the digits) is ASCII, so the
  character-wise operations below agree with Python whether a \<open>char\<close> is read as a
  code point or as a byte of the UTF-8 encoding.
\<close>

datatype pyfloat = Finite rat | PosInf | NegInf | NaN

text \<open>The result of \<^verbatim>\<open>json.loads\<close>; \<open>JNull\<close> is Python's \<^verbatim>\<open>None\<close>, a \<open>JObj\<close> is a
  \<^verbatim>\<open>dict\<close> in insertion order.\<close>

datatype json =
    JNull
  | JBool bool
  | JInt int
  | JFloat pyfloat
  | JStr string
  | JArr "json list"
  | JObj "(string \<times> json) list"

text \<open>The exceptions the module can end with.\<close>

datatype error =
    AttributeError
  | KeyError
  | IndexError
  | TypeError
  | ValueError
  | JSONDecodeError
  | RequestException
  | OSError

text \<open>\<^verbatim>\<open>bool(x)\<close>, as \<^verbatim>\<open>if not x\<close> reads it.\<close>

fun truthy :: "json \<Rightarrow> bool" where
  "truthy JNull = False"
| "truthy (JBool b) = b"
| "truthy (JInt i) = (i \<noteq> 0)"
| "truthy (JFloat f) = (f \<noteq> Finite 0)"
| "truthy (JStr s) = (s \<noteq> [])"
| "truthy (JArr xs) = (xs \<noteq> [])"
| "truthy (JObj kvs) = (kvs \<noteq> [])"

text \<open>Truthiness of an attribute that holds \<^verbatim>\<open>None\<close> or a \<^verbatim>\<open>str\<close>.\<close>

fun truthy_str :: "string option \<Rightarrow> bool" where
  "truthy_str None = False"
| "truthy_str (Some s) = (s \<noteq> [])"

text \<open>\<^verbatim>\<open>x[k]\<close> for a string key \<open>k\<close>.\<close>

fun getitem_str :: "json \<Rightarrow> string \<Rightarrow> error + json" where
  "getitem_str (JObj kvs) k = (case map_of kvs k of None \<Rightarrow> Inl KeyError | Some v \<Rightarrow> Inr v)"
| "getitem_str _ k = Inl TypeError"

text \<open>\<^verbatim>\<open>x[0]\<close>. A dict from \<^verbatim>\<open>json.loads\<close> has string keys only, so the key \<^verbatim>\<open>0\<close>
  is missing; a non-empty string gives its first character.\<close>

fun getitem_0 :: "json \<Rightarrow> error + json" where
  "getitem_0 (JArr []) = Inl IndexError"
| "getitem_0 (JArr (x # xs)) = Inr x"
| "getitem_0 (JStr []) = Inl IndexError"
| "getitem_0 (JStr (c # cs)) = Inr (JStr [c])"
| "getitem_0 (JObj kvs) = Inl KeyError"
| "getitem_0 _ = Inl TypeError"

text \<open>The elements a \<^verbatim>\<open>for\<close> loop or a comprehension draws from a value: the items of a
  list, the characters of a string, the keys of a dict; nothing else is iterable.\<close>

fun py_iter :: "json \<Rightarrow> error + json list" where
  "py_iter (JArr xs) = Inr xs"
| "py_iter (JStr s) = Inr (map (\<lambda>c. JStr [c]) s)"
| "py_iter (JObj kvs) = Inr (map (\<lambda>kv. JStr (fst kv)) kvs)"
| "py_iter _ = Inl TypeError"

section \<open>Regular expressions and string helpers\<close>

definition is_digit :: "char \<Rightarrow> bool" where
  "is_digit c = (c \<in> set ''0123456789'')"

text \<open>\<^verbatim>\<open>re.search("[0-9]{lo,hi}", s)\<close> followed by \<^verbatim>\<open>.group()\<close> on a match: the scan goes
  left to right, and at the first position where at least \<open>lo\<close> digits follow, the greedy
  match takes as many of them as there are, up to \<open>hi\<close>. \<open>None\<close> is no match.\<close>

fun re_search_digits :: "nat \<Rightarrow> nat \<Rightarrow> string \<Rightarrow> string option" where
  "re_search_digits lo hi [] = (if lo = 0 then Some [] else None)"
| "re_search_digits lo hi (c # cs) =
     (if lo \<le> length (takeWhile is_digit (c # cs))
      then Some (take hi (takeWhile is_digit (c # cs)))
      else re_search_digits lo hi cs)"

text \<open>\<^verbatim>\<open>s.split(c)\<close> for a one-character separator: always at least one segment.\<close>

fun split_char :: "char \<Rightarrow> string \<Rightarrow> string list" where
  "split_char c [] = [[]]"
| "split_char c (x # xs) =
     (if x = c then [] # split_char c xs
      else (case split_char c xs of
              [] \<Rightarrow> [[x]]
            | y # ys \<Rightarrow> (x # y) # ys))"

text \<open>\<^verbatim>\<open>s.replace(a, b)\<close> for single characters \<open>a\<close> and \<open>b\<close>.\<close>

definition replace_char :: "char \<Rightarrow> char \<Rightarrow> string \<Rightarrow> string" where
  "replace_char a b s = map (\<lambda>c. if c = a then b else c) s"

text \<open>\<^verbatim>\<open>xs.remove(x)\<close>: the first occurrence goes, \<^verbatim>\<open>ValueError\<close> when there is none.\<close>

definition list_remove :: "'a \<Rightarrow> 'a list \<Rightarrow> error + 'a list" where
  "list_remove x xs = (if x \<in> set xs then Inr (remove1 x xs) else Inl ValueError)"

text \<open>\<^verbatim>\<open>xs[-1]\<close>.\<close>

definition last_item :: "'a list \<Rightarrow> error + 'a" where
  "last_item xs = (case xs of [] \<Rightarrow> Inl IndexError | _ # _ \<Rightarrow> Inr (last xs))"

text \<open>A window of \<open>n\<close> digits starts at position \<open>i\<close> of \<open>s\<close>.\<close>

definition digits_at :: "nat \<Rightarrow> string \<Rightarrow> nat \<Rightarrow> bool" where
  "digits_at n s i = (i + n \<le> length s \<and> list_all is_digit (take n (drop i s)))"


section \<open>Tracks and playlists\<close>

text \<open>\<^verbatim>\<open>class Track\<close>: the three entries of the descriptor and the descriptor itself
  (\<^verbatim>\<open>self._track\<close>).\<close>

record track =
  url :: json
  part_number :: json
  chapter_number :: json
  track_dict :: json

text \<open>\<^verbatim>\<open>class Playlist\<close>; \<open>playlist_dict\<close> is \<^verbatim>\<open>self._playlist\<close>.\<close>

record playlist_obj =
  playlist_title :: string
  tracks :: "track list"
  playlist_dict :: json
  download_paths :: "string list"

text \<open>\<^verbatim>\<open>Track.__init__\<close>: three lookups in this order, the first failure raises.\<close>

definition Track_init :: "json \<Rightarrow> error + track" where
  "Track_init t =
     (case getitem_str t ''url'' of
        Inl e \<Rightarrow> Inl e
      | Inr u \<Rightarrow>
          (case getitem_str t ''part_number'' of
             Inl e \<Rightarrow> Inl e
           | Inr p \<Rightarrow>
               (case getitem_str t ''chapter_number'' of
                  Inl e \<Rightarrow> Inl e
                | Inr c \<Rightarrow>
                    Inr \<lparr>url = u, part_number = p, chapter_number = c, track_dict = t\<rparr>)))"

text \<open>The comprehension \<^verbatim>\<open>[ Track(track) for track in ... ]\<close>.\<close>

fun make_tracks :: "json list \<Rightarrow> error + track list" where
  "make_tracks [] = Inr []"
| "make_tracks (t # ts) =
     (case Track_init t of
        Inl e \<Rightarrow> Inl e
      | Inr x \<Rightarrow> (case make_tracks ts of Inl e \<Rightarrow> Inl e | Inr xs \<Rightarrow> Inr (x # xs)))"

text \<open>\<^verbatim>\<open>Playlist.__init__\<close>.\<close>

definition Playlist_init :: "string \<Rightarrow> json \<Rightarrow> error + playlist_obj" where
  "Playlist_init ttl pl =
     (case getitem_str pl ''playlist'' of
        Inl e \<Rightarrow> Inl e
      | Inr entries \<Rightarrow>
          (case py_iter entries of
             Inl e \<Rightarrow> Inl e
           | Inr es \<Rightarrow>
               (case make_tracks es of
                  Inl e \<Rightarrow> Inl e
                | Inr ts \<Rightarrow>
                    Inr \<lparr>playlist_title = ttl, tracks = ts, playlist_dict = pl,
                         download_paths = []\<rparr>)))"

section \<open>The outside world\<close>

type_synonym cookies = "(string \<times> string) list"
type_synonym headers = "(string \<times> string) list"

text \<open>What the program does to the outside world, in the order it does it:
  \<^verbatim>\<open>requests.get(url, cookies=...)\<close>, \<^verbatim>\<open>requests.get(url, headers=...)\<close>,
  \<^verbatim>\<open>requests.post(url, headers=..., data=...)\<close>,
  \<^verbatim>\<open>internals.download_stream(url, path)\<close> and \<^verbatim>\<open>print\<close>.\<close>

datatype event =
    Get_cookies string cookies
  | Get_headers string headers
  | Post string headers string
  | Download_stream json string
  | Print string

text \<open>
  Everything the module takes from outside itself, as parameters:
  \<^item> \<open>const_premium_cookies\<close> is \<^verbatim>\<open>const.premium_cookies\<close>, a constant of a module that
    is not part of the sources at hand;
  \<^item> \<open>requests\<close> is the network: given the events so far and a request, the request
    raises or returns \<^verbatim>\<open>response.text\<close>; the answer may change from one call to the next;
  \<^item> \<open>download_stream\<close> is \<^verbatim>\<open>internals.download_stream\<close>, a function of a module that is
    not part of the sources at hand: given the events so far, the transfer of a URL to a
    path raises (\<open>Some\<close>) or returns (\<open>None\<close>);
  \<^item> \<open>json_loads\<close> is \<^verbatim>\<open>json.loads\<close>, \<open>None\<close> for \<^verbatim>\<open>JSONDecodeError\<close>;
  \<^item> \<open>soup_find_div\<close> is BeautifulSoup's
    \<^verbatim>\<open>find("div", {"data-track_category": "book_preview"})\<close> on a page text: the attributes
    of the tag found, or \<open>None\<close>;
  \<^item> \<open>soup_find_all_script\<close> is \<^verbatim>\<open>find_all("script", {"type": "text/javascript"})\<close>: the
    text of each tag found;
  \<^item> \<open>py_repr\<close> is Python's \<^verbatim>\<open>str()\<close> on floats, lists and dicts.
\<close>

record env =
  const_premium_cookies :: cookies
  requests :: "event list \<Rightarrow> event \<Rightarrow> error + string"
  download_stream :: "event list \<Rightarrow> json \<Rightarrow> string \<Rightarrow> error option"
  json_loads :: "string \<Rightarrow> json option"
  soup_find_div :: "string \<Rightarrow> (string \<times> string) list option"
  soup_find_all_script :: "string \<Rightarrow> string list"
  py_repr :: "json \<Rightarrow> string"

section \<open>Formatting\<close>

definition digit_char :: "nat \<Rightarrow> char" where
  "digit_char d = ''0123456789'' ! d"

fun str_nat :: "nat \<Rightarrow> string" where
  "str_nat n = (if n < 10 then [digit_char n] else str_nat (n div 10) @ [digit_char (n mod 10)])"

declare str_nat.simps [simp del]

definition str_int :: "int \<Rightarrow> string" where
  "str_int i = (if i < 0 then CHR ''-'' # str_nat (nat (- i)) else str_nat (nat i))"

text \<open>What \<^verbatim>\<open>str.format\<close> puts in place of \<^verbatim>\<open>{}\<close> for a value.\<close>

fun py_str :: "env \<Rightarrow> json \<Rightarrow> string" where
  "py_str env (JStr s) = s"
| "py_str env JNull = ''None''"
| "py_str env (JBool b) = (if b then ''True'' else ''False'')"
| "py_str env (JInt i) = str_int i"
| "py_str env v = py_repr env v"

text \<open>The same for an attribute that holds \<^verbatim>\<open>None\<close> or a \<^verbatim>\<open>str\<close>.\<close>

fun str_opt :: "string option \<Rightarrow> string" where
  "str_opt None = ''None''"
| "str_opt (Some s) = s"


section \<open>Downloading a playlist\<close>

text \<open>\<^verbatim>\<open>Track.download\<close>: one call of \<^verbatim>\<open>internals.download_stream\<close>.\<close>

definition Track_download ::
  "env \<Rightarrow> track \<Rightarrow> string \<Rightarrow> event list \<Rightarrow> error option \<times> event list" where
  "Track_download env t path tr =
     (download_stream env tr (url t) path, tr @ [Download_stream (url t) path])"

text \<open>\<^verbatim>\<open>"{0}_{1}.mp3".format(title, track.chapter_number)\<close>\<close>

definition track_path :: "env \<Rightarrow> string \<Rightarrow> track \<Rightarrow> string" where
  "track_path env ttl t = ttl @ ''_'' @ py_str env (chapter_number t) @ ''.mp3''"

text \<open>The progress line.\<close>

definition dl_str :: "env \<Rightarrow> track \<Rightarrow> string \<Rightarrow> string" where
  \<open>dl_str env t path =
     ''Downloading chapter-'' @ py_str env (chapter_number t) @ '' ('' @ py_str env (url t)
       @ '') to "'' @ path @ ''"''\<close>

text \<open>The loop of \<^verbatim>\<open>Playlist.download\<close> over the tracks still to come, with
  \<^verbatim>\<open>self.download_paths\<close> and the events so far as its state. A transfer that raises ends
  the loop with that exception.\<close>

fun download_loop ::
  "env \<Rightarrow> string \<Rightarrow> track list \<Rightarrow> string list \<Rightarrow> event list
     \<Rightarrow> error option \<times> string list \<times> event list" where
  "download_loop env ttl [] paths tr = (None, paths, tr)"
| "download_loop env ttl (t # ts) paths tr =
     (case Track_download env t (track_path env ttl t)
             (tr @ [Print (dl_str env t (track_path env ttl t))]) of
        (Some e, tr') \<Rightarrow> (Some e, paths, tr')
      | (None, tr') \<Rightarrow> download_loop env ttl ts (paths @ [track_path env ttl t]) tr')"

text \<open>\<^verbatim>\<open>Playlist.download\<close>\<close>

definition Playlist_download ::
  "env \<Rightarrow> playlist_obj \<Rightarrow> event list \<Rightarrow> error option \<times> playlist_obj \<times> event list" where
  "Playlist_download env p tr =
     (case download_loop env (playlist_title p) (tracks p) (download_paths p) tr of
        (r, paths, tr') \<Rightarrow> (r, p\<lparr>download_paths := paths\<rparr>, tr'))"

section \<open>The session\<close>

text \<open>The dict that \<^verbatim>\<open>_scrape_audiobook\<close> returns.\<close>

record keys =
  ak_preview_url :: string
  ak_book_id :: string
  ak_author_id :: "string option"

text \<open>\<^verbatim>\<open>class ScribdAudioBook\<close>. The field \<open>m_x\<close> is the attribute \<^verbatim>\<open>self._x\<close>, \<open>None\<close>
  (\<open>JNull\<close> for the license id, which is whatever the server sent) until the property
  \<^verbatim>\<open>x\<close> stores a value there.\<close>

record session =
  m_audiobook_keys :: "keys option"
  m_preview_url :: "string option"
  m_book_id :: "string option"
  m_author_id :: "string option"
  m_license_url :: "string option"
  m_license_id :: json
  m_playlist_url :: "string option"
  m_authenticate_url :: "string option"
  m_title :: "string option"
  m_playlist :: "playlist_obj option"
  audiobook_url :: string
  scribd_id :: string
  session_key_header :: headers
  cookies :: cookies

text \<open>A method of the session: it may change the session, add events, and it returns
  or raises.\<close>

type_synonym 'a action = "session \<Rightarrow> event list \<Rightarrow> (error + 'a) \<times> session \<times> event list"

definition lift :: "error + 'a \<Rightarrow> 'a action" where
  "lift r s tr = (r, s, tr)"

definition bnd :: "'a action \<Rightarrow> ('a \<Rightarrow> 'b action) \<Rightarrow> 'b action" where
  "bnd m f s tr =
     (case m s tr of
        (Inl e, s', tr') \<Rightarrow> (Inl e, s', tr')
      | (Inr x, s', tr') \<Rightarrow> f x s' tr')"

text \<open>One request: the event is recorded, the network answers from the events before it.\<close>

definition request :: "env \<Rightarrow> event \<Rightarrow> string action" where
  "request env req s tr = (requests env tr req, s, tr @ [req])"

text \<open>\<^verbatim>\<open>ScribdAudioBook.__init__\<close>: \<^verbatim>\<open>.group()\<close> on a failed search raises
  \<^verbatim>\<open>AttributeError\<close>. No request is made.\<close>

definition ScribdAudioBook_init ::
  "env \<Rightarrow> string \<Rightarrow> event list \<Rightarrow> (error + session) \<times> event list" where
  "ScribdAudioBook_init env u tr =
     (case re_search_digits 9 9 u of
        None \<Rightarrow> (Inl AttributeError, tr)
      | Some sid \<Rightarrow>
          (Inr \<lparr>m_audiobook_keys = None, m_preview_url = None, m_book_id = None,
                m_author_id = None, m_license_url = None, m_license_id = JNull,
                m_playlist_url = None, m_authenticate_url = None, m_title = None,
                m_playlist = None, audiobook_url = u, scribd_id = sid,
                session_key_header =
                  [(''Session-Key'', ''acea0b1d-62b9-4fb7-960b-06d9fbb4999d'')],
                cookies = const_premium_cookies env\<rparr>, tr))"

text \<open>The body of \<^verbatim>\<open>_scrape_audiobook\<close> after the page has been fetched.\<close>

definition scrape_page :: "env \<Rightarrow> string \<Rightarrow> error + keys" where
  "scrape_page env html =
     (case soup_find_div env html of
        None \<Rightarrow> Inl TypeError
      | Some attrs \<Rightarrow>
     (case map_of attrs ''data-push_state'' of
        None \<Rightarrow> Inl KeyError
      | Some push_state \<Rightarrow>
     (case json_loads env push_state of
        None \<Rightarrow> Inl JSONDecodeError
      | Some text \<Rightarrow>
     (case getitem_str text ''audiobook_sample_url'' of
        Inl e \<Rightarrow> Inl e
      | Inr (JStr sample) \<Rightarrow>
         (case re_search_digits 5 6 sample of
            None \<Rightarrow> Inl AttributeError
          | Some bid \<Rightarrow>
         (case last_item (soup_find_all_script env html) of
            Inl e \<Rightarrow> Inl e
          | Inr js_code \<Rightarrow>
              Inr \<lparr>ak_preview_url = sample, ak_book_id = bid,
                   ak_author_id = re_search_digits 8 8 js_code\<rparr>))
      | Inr _ \<Rightarrow> Inl TypeError))))"

text \<open>\<^verbatim>\<open>_scrape_audiobook\<close>\<close>

definition scrape_audiobook :: "env \<Rightarrow> keys action" where
  "scrape_audiobook env s tr =
     bnd (request env (Get_cookies (audiobook_url s) (cookies s)))
         (\<lambda>text. lift (scrape_page env text)) s tr"

text \<open>The properties. Each one tests its attribute with \<^verbatim>\<open>if not self._x\<close>, so an
  attribute holding \<^verbatim>\<open>None\<close> or an empty string is computed again.\<close>

definition audiobook_keys :: "env \<Rightarrow> keys action" where
  "audiobook_keys env s tr =
     (case m_audiobook_keys s of
        Some ak \<Rightarrow> (Inr ak, s, tr)
      | None \<Rightarrow>
          bnd (scrape_audiobook env)
              (\<lambda>ak s' tr'. (Inr ak, s'\<lparr>m_audiobook_keys := Some ak\<rparr>, tr')) s tr)"

definition preview_url :: "env \<Rightarrow> string action" where
  "preview_url env s tr =
     (case m_preview_url s of
        Some (c # cs) \<Rightarrow> (Inr (c # cs), s, tr)
      | _ \<Rightarrow>
          bnd (audiobook_keys env)
              (\<lambda>ak s' tr'. (Inr (ak_preview_url ak),
                             s'\<lparr>m_preview_url := Some (ak_preview_url ak)\<rparr>, tr')) s tr)"

definition book_id :: "env \<Rightarrow> string action" where
  "book_id env s tr =
     (case m_book_id s of
        Some (c # cs) \<Rightarrow> (Inr (c # cs), s, tr)
      | _ \<Rightarrow>
          bnd (audiobook_keys env)
              (\<lambda>ak s' tr'. (Inr (ak_book_id ak),
                             s'\<lparr>m_book_id := Some (ak_book_id ak)\<rparr>, tr')) s tr)"

definition author_id :: "env \<Rightarrow> string option action" where
  "author_id env s tr =
     (case m_author_id s of
        Some (c # cs) \<Rightarrow> (Inr (Some (c # cs)), s, tr)
      | _ \<Rightarrow>
          bnd (audiobook_keys env)
              (\<lambda>ak s' tr'. (Inr (ak_author_id ak),
                             s'\<lparr>m_author_id := ak_author_id ak\<rparr>, tr')) s tr)"

definition license_url :: "env \<Rightarrow> string action" where
  "license_url env s tr =
     (case m_license_url s of
        Some (c # cs) \<Rightarrow> (Inr (c # cs), s, tr)
      | _ \<Rightarrow>
          bnd (author_id env) (\<lambda>aid.
          bnd (book_id env) (\<lambda>bid s' tr'.
            (Inr (''https://api.findawayworld.com/v4/accounts/scribd-'' @ str_opt aid
                    @ ''/audiobooks/'' @ bid),
             s'\<lparr>m_license_url :=
                  Some (''https://api.findawayworld.com/v4/accounts/scribd-'' @ str_opt aid
                    @ ''/audiobooks/'' @ bid)\<rparr>,
             tr'))) s tr)"

definition authenticate_url :: "string action" where
  "authenticate_url s tr =
     (case m_authenticate_url s of
        Some (c # cs) \<Rightarrow> (Inr (c # cs), s, tr)
      | _ \<Rightarrow>
          (Inr (''https://www.scribd.com/listen/'' @ scribd_id s),
           s\<lparr>m_authenticate_url := Some (''https://www.scribd.com/listen/'' @ scribd_id s)\<rparr>,
           tr))"

text \<open>\<^verbatim>\<open>response_dict["licenses"][0]["id"]\<close>\<close>

definition license_of_response :: "json \<Rightarrow> error + json" where
  "license_of_response response_dict =
     (case getitem_str response_dict ''licenses'' of
        Inl e \<Rightarrow> Inl e
      | Inr licenses \<Rightarrow>
          (case getitem_0 licenses of
             Inl e \<Rightarrow> Inl e
           | Inr license \<Rightarrow> getitem_str license ''id''))"

text \<open>\<^verbatim>\<open>json.loads(response.text)\<close>\<close>

definition loads :: "env \<Rightarrow> string \<Rightarrow> error + json" where
  "loads env text = (case json_loads env text of None \<Rightarrow> Inl JSONDecodeError | Some v \<Rightarrow> Inr v)"

definition license_id :: "env \<Rightarrow> json action" where
  "license_id env s tr =
     (if truthy (m_license_id s) then (Inr (m_license_id s), s, tr)
      else
        bnd authenticate_url (\<lambda>au.
        bnd (\<lambda>s'. request env (Get_cookies au (cookies s')) s') (\<lambda>_.
        bnd (license_url env) (\<lambda>lu.
        bnd (\<lambda>s'. request env (Get_headers lu (session_key_header s')) s') (\<lambda>text.
        bnd (lift (loads env text)) (\<lambda>response_dict.
        bnd (lift (license_of_response response_dict)) (\<lambda>lid s' tr'.
          (Inr lid, s'\<lparr>m_license_id := lid\<rparr>, tr'))))))) s tr)"

definition playlist_url :: "env \<Rightarrow> string action" where
  "playlist_url env s tr =
     (case m_playlist_url s of
        Some (c # cs) \<Rightarrow> (Inr (c # cs), s, tr)
      | _ \<Rightarrow>
          bnd (book_id env) (\<lambda>bid s' tr'.
            (Inr (''https://api.findawayworld.com/v4/audiobooks/'' @ bid @ ''/playlists''),
             s'\<lparr>m_playlist_url :=
                  Some (''https://api.findawayworld.com/v4/audiobooks/'' @ bid @ ''/playlists'')\<rparr>,
             tr')) s tr)"

text \<open>\<^verbatim>\<open>premium_cookies\<close>: \<^verbatim>\<open>bool(self.author_id)\<close>\<close>

definition premium_cookies :: "env \<Rightarrow> bool action" where
  "premium_cookies env = bnd (author_id env) (\<lambda>aid. lift (Inr (truthy_str aid)))"

definition title :: "string action" where
  "title s tr =
     (case m_title s of
        Some (c # cs) \<Rightarrow> (Inr (c # cs), s, tr)
      | _ \<Rightarrow>
          (case list_remove [] (split_char CHR ''/'' (audiobook_url s)) of
             Inl e \<Rightarrow> (Inl e, s, tr)
           | Inr splits \<Rightarrow>
               (case last_item splits of
                  Inl e \<Rightarrow> (Inl e, s, tr)
                | Inr seg \<Rightarrow>
                    (Inr (replace_char CHR ''-'' CHR '' '' seg),
                     s\<lparr>m_title := Some (replace_char CHR ''-'' CHR '' '' seg)\<rparr>, tr))))"

text \<open>The two arms of \<^verbatim>\<open>make_playlist\<close>. In the first, \<^verbatim>\<open>+\<close> between a string and a
  license id that is not a string raises \<^verbatim>\<open>TypeError\<close>.\<close>

definition premium_playlist :: "env \<Rightarrow> json action" where
  \<open>premium_playlist env =
     bnd (license_id env) (\<lambda>lid.
       case lid of
         JStr l \<Rightarrow>
           bnd (playlist_url env) (\<lambda>pu.
           bnd (\<lambda>s'. request env
                  (Post pu (session_key_header s') (''{"license_id":"'' @ l @ ''"}'')) s')
               (\<lambda>text. lift (loads env text)))
       | _ \<Rightarrow> lift (Inl TypeError))\<close>

definition preview_playlist :: "env \<Rightarrow> json action" where
  "preview_playlist env =
     bnd (preview_url env) (\<lambda>pu.
       lift (Inr (JObj [(''playlist'',
                         JArr [JObj [(''url'', JStr pu),
                                     (''part_number'', JStr ''preview''),
                                     (''chapter_number'', JStr ''preview'')]]),
                        (''expires'', JNull),
                        (''playlist_token'', JNull)])))"

definition make_playlist :: "env \<Rightarrow> json action" where
  "make_playlist env =
     bnd (premium_cookies env) (\<lambda>premium.
       if premium then premium_playlist env else preview_playlist env)"



section \<open>Notions used to state the properties\<close>

text \<open>An entry of a server playlist record as the interface describes it: a dict with the
  keys \<^verbatim>\<open>url\<close>, \<^verbatim>\<open>part_number\<close> and \<^verbatim>\<open>chapter_number\<close>.\<close>

definition entry_ok :: "json \<Rightarrow> bool" where
  "entry_ok e =
     (case e of
        JObj kvs \<Rightarrow>
          map_of kvs ''url'' \<noteq> None \<and> map_of kvs ''part_number'' \<noteq> None
            \<and> map_of kvs ''chapter_number'' \<noteq> None
      | _ \<Rightarrow> False)"

text \<open>The events of one turn of the download loop: the progress line, then the
  transfer.\<close>

definition attempt_events :: "env \<Rightarrow> string \<Rightarrow> track \<Rightarrow> event list" where
  "attempt_events env ttl t =
     [Print (dl_str env t (track_path env ttl t)),
      Download_stream (url t) (track_path env ttl t)]"

text \<open>The outcome of the transfer of track \<open>k\<close> in a run from the events \<open>tr\<close> in which
  the tracks before \<open>k\<close> have been transferred: \<open>None\<close> is success.\<close>

definition transfer_result ::
  "env \<Rightarrow> string \<Rightarrow> track list \<Rightarrow> event list \<Rightarrow> nat \<Rightarrow> error option" where
  "transfer_result env ttl ts tr k =
     download_stream env
       (tr @ concat (map (attempt_events env ttl) (take k ts))
           @ [Print (dl_str env (ts ! k) (track_path env ttl (ts ! k)))])
       (url (ts ! k)) (track_path env ttl (ts ! k))"

text \<open>The dict that the fallback arm of \<^verbatim>\<open>make_playlist\<close> returns for a preview
  URL.\<close>

definition preview_dict :: "string \<Rightarrow> json" where
  "preview_dict pu =
     JObj [(''playlist'',
            JArr [JObj [(''url'', JStr pu),
                        (''part_number'', JStr ''preview''),
                        (''chapter_number'', JStr ''preview'')]]),
           (''expires'', JNull),
           (''playlist_token'', JNull)]"






section \<open>Example inputs\<close>

text \<open>A world in which every request is answered with the same page text, nothing parses
  and every transfer succeeds.\<close>

definition example_env :: env where
  "example_env =
     \<lparr>const_premium_cookies = [],
      requests = (\<lambda>tr req. Inr ''PAGE''),
      download_stream = (\<lambda>tr u p. None),
      json_loads = (\<lambda>t. None),
      soup_find_div = (\<lambda>t. None),
      soup_find_all_script = (\<lambda>t. []),
      py_repr = (\<lambda>v. ''?'')\<rparr>"

text \<open>The same world, except that the transfer of the URL \<^verbatim>\<open>u1\<close> fails.\<close>

definition failing_env :: env where
  "failing_env =
     example_env\<lparr>download_stream :=
       (\<lambda>tr u p. if u = JStr ''u1'' then Some RequestException else None)\<rparr>"

text \<open>A server record of three entries, the first and the last alike.\<close>

definition example_entries :: "json list" where
  "example_entries =
     [JObj [(''url'', JStr ''u2''), (''part_number'', JInt 0), (''chapter_number'', JInt 2)],
      JObj [(''url'', JStr ''u1''), (''part_number'', JInt 0), (''chapter_number'', JInt 1)],
      JObj [(''url'', JStr ''u2''), (''part_number'', JInt 0), (''chapter_number'', JInt 2)]]"

definition example_record :: json where
  "example_record =
     JObj [(''playlist'', JArr example_entries),
           (''expires'', JNull), (''playlist_token'', JNull)]"

definition example_playlist :: playlist_obj where
  "example_playlist =
     \<lparr>playlist_title = ''T'',
      tracks = [\<lparr>url = JStr ''u2'', part_number = JInt 0, chapter_number = JInt 2,
                  track_dict = example_entries ! 0\<rparr>,
                \<lparr>url = JStr ''u1'', part_number = JInt 0, chapter_number = JStr ''one'',
                  track_dict = example_entries ! 1\<rparr>,
                \<lparr>url = JStr ''u2'', part_number = JInt 0, chapter_number = JInt 2,
                  track_dict = example_entries ! 2\<rparr>],
      playlist_dict = example_record, download_paths = []\<rparr>"

text \<open>A world with a premium account: the page carries an author id in its last script,
  the license endpoint answers with an empty license id at first and with \<^verbatim>\<open>abc\<close> from
  the fourth event on, and the playlist endpoint sends the record above.\<close>

definition flaky_env :: env where
  "flaky_env =
     \<lparr>const_premium_cookies = [(''_scribd_session'', ''secret'')],
      requests = (\<lambda>tr req. case req of
           Get_cookies u c \<Rightarrow> Inr ''PAGE''
         | Get_headers u h \<Rightarrow> Inr (if length tr < 3 then ''LICENSE-1'' else ''LICENSE-2'')
         | Post u h d \<Rightarrow> Inr ''PLAYLIST''
         | _ \<Rightarrow> Inl RequestException),
      download_stream = (\<lambda>tr u p. None),
      json_loads = (\<lambda>t.
           if t = ''PUSH''
           then Some (JObj [(''audiobook_sample_url'', JStr ''https://cdn.example/12345/s.mp3'')])
           else if t = ''LICENSE-1''
           then Some (JObj [(''licenses'', JArr [JObj [(''id'', JStr '''')]])])
           else if t = ''LICENSE-2''
           then Some (JObj [(''licenses'', JArr [JObj [(''id'', JStr ''abc'')]])])
           else if t = ''NO-LICENSE''
           then Some (JObj [(''message'', JStr ''not found'')])
           else if t = ''PLAYLIST'' then Some example_record
           else None),
      soup_find_div = (\<lambda>t. Some [(''data-push_state'', ''PUSH'')]),
      soup_find_all_script = (\<lambda>t. [''var a = 1;'', ''user: 12345678'']),
      py_repr = (\<lambda>v. ''?'')\<rparr>"

text \<open>The same world without an author id on the page.\<close>

definition preview_env :: env where
  "preview_env = flaky_env\<lparr>soup_find_all_script := (\<lambda>t. [''var a = 1;''])\<rparr>"

text \<open>The same world with a license endpoint whose answer has no \<^verbatim>\<open>licenses\<close> key.\<close>

definition no_license_env :: env where
  "no_license_env =
     flaky_env\<lparr>requests := (\<lambda>tr req. case req of
           Get_headers u h \<Rightarrow> Inr ''NO-LICENSE''
         | _ \<Rightarrow> Inr ''PAGE'')\<rparr>"

text \<open>The same world with a license endpoint whose answer has an empty \<^verbatim>\<open>licenses\<close>
  list.\<close>

definition empty_license_env :: env where
  "empty_license_env =
     no_license_env\<lparr>json_loads := (\<lambda>t.
        if t = ''NO-LICENSE'' then Some (JObj [(''licenses'', JArr [])])
        else json_loads flaky_env t)\<rparr>"

text \<open>Two content URLs, without and with a trailing slash, and the session that the
  constructor makes of a URL whose identifier is \<^verbatim>\<open>123456789\<close>.\<close>

definition example_url :: string where
  "example_url = ''https://x.com/123456789/My-Great-Book''"

definition slash_url :: string where
  "slash_url = ''https://x.com/123456789/My-Great-Book/''"

definition example_session :: "env \<Rightarrow> string \<Rightarrow> session" where
  "example_session env u =
     \<lparr>m_audiobook_keys = None, m_preview_url = None, m_book_id = None,
      m_author_id = None, m_license_url = None, m_license_id = JNull,
      m_playlist_url = None, m_authenticate_url = None, m_title = None,
      m_playlist = None, audiobook_url = u, scribd_id = ''123456789'',
      session_key_header = [(''Session-Key'', ''acea0b1d-62b9-4fb7-960b-06d9fbb4999d'')],
      cookies = const_premium_cookies env\<rparr>"

section \<open>Digit windows and the search\<close>

lemma takeWhile_length_ge:
  "n \<le> length (takeWhile P xs) \<longleftrightarrow> (n \<le> length xs \<and> list_all P (take n xs))"
proof (induction xs arbitrary: n)
  case Nil
  then show ?case by simp
next
  case (Cons x xs)
  show ?case
  proof (cases n)
    case 0
    then show ?thesis by simp
  next
    case (Suc m)
    then show ?thesis using Cons.IH [of m] by simp
  qed
qed

lemma take_takeWhile_window:
  "n \<le> length (takeWhile P xs) \<Longrightarrow> take n (takeWhile P xs) = take n xs"
proof (induction xs arbitrary: n)
  case Nil
  then show ?case by simp
next
  case (Cons x xs)
  then show ?case by (cases n) (auto split: if_splits)
qed

lemma digits_at_0:
  "digits_at n s 0 \<longleftrightarrow> n \<le> length (takeWhile is_digit s)"
  by (simp add: digits_at_def takeWhile_length_ge)

lemma digits_at_Suc:
  "digits_at n (c # cs) (Suc i) \<longleftrightarrow> digits_at n cs i"
  by (simp add: digits_at_def)

lemma digits_at_Nil:
  "0 < n \<Longrightarrow> \<not> digits_at n [] i"
  by (simp add: digits_at_def)

lemma re_search_digits_leftmost:
  "0 < n \<Longrightarrow> digits_at n s i \<Longrightarrow> (\<forall>j<i. \<not> digits_at n s j)
     \<Longrightarrow> re_search_digits n n s = Some (take n (drop i s))"
proof (induction s arbitrary: i)
  case Nil
  then show ?case by (simp add: digits_at_Nil)
next
  case (Cons c cs)
  show ?case
  proof (cases i)
    case 0
    with Cons.prems have "n \<le> length (takeWhile is_digit (c # cs))"
      by (simp add: digits_at_0)
    then show ?thesis using 0 take_takeWhile_window [of n is_digit "c # cs"] by simp
  next
    case (Suc k)
    with Cons.prems have no0: "\<not> digits_at n (c # cs) 0" by blast
    have here: "digits_at n cs k" using Cons.prems Suc by (simp add: digits_at_Suc)
    have before: "\<forall>j<k. \<not> digits_at n cs j"
    proof (intro allI impI)
      fix j assume "j < k"
      then have "Suc j < i" using Suc by simp
      then have "\<not> digits_at n (c # cs) (Suc j)" using Cons.prems by blast
      then show "\<not> digits_at n cs j" by (simp add: digits_at_Suc)
    qed
    have "re_search_digits n n cs = Some (take n (drop k cs))"
      using Cons.IH [OF Cons.prems(1) here before] .
    moreover have "\<not> n \<le> length (takeWhile is_digit (c # cs))"
      using no0 by (simp add: digits_at_0)
    ultimately show ?thesis using Suc by simp
  qed
qed

lemma re_search_digits_none:
  "0 < n \<Longrightarrow> (\<forall>i. \<not> digits_at n s i) \<Longrightarrow> re_search_digits n n s = None"
proof (induction s)
  case Nil
  then show ?case by simp
next
  case (Cons c cs)
  have "\<not> digits_at n (c # cs) 0" using Cons.prems by blast
  then have no0: "\<not> n \<le> length (takeWhile is_digit (c # cs))"
    by (simp add: digits_at_0)
  have "\<forall>i. \<not> digits_at n cs i"
  proof
    fix i
    have "\<not> digits_at n (c # cs) (Suc i)" using Cons.prems by blast
    then show "\<not> digits_at n cs i" by (simp add: digits_at_Suc)
  qed
  then have "re_search_digits n n cs = None" using Cons.IH Cons.prems(1) by blast
  then show ?case using no0 by simp
qed

lemma digits_at_least:
  "digits_at n s i \<Longrightarrow> \<exists>k. digits_at n s k \<and> (\<forall>j<k. \<not> digits_at n s j)"
  by (metis exists_least_iff)

section \<open>The content identifier\<close>

text \<open>
  C2. A 9-digit run is read as the pattern reads it: a window of nine consecutive
  digits, wherever it starts. When exactly one such window occurs in the content URL,
  constructing the session succeeds and \<open>scribd_id\<close> is that window. When none
  occurs, construction fails: \<^verbatim>\<open>.group()\<close> on the failed search raises
  \<^verbatim>\<open>AttributeError\<close>. That is the only way construction fails, so the caller can tell
  the missing identifier from it. (A URL with a run of ten digits or more has several
  windows; C10 covers it.)
\<close>

theorem scribd_id_unique_run:
  "(digits_at 9 u i \<and> (\<forall>j. digits_at 9 u j \<longrightarrow> j = i) \<longrightarrow>
      (\<exists>s. ScribdAudioBook_init env u tr = (Inr s, tr) \<and> scribd_id s = take 9 (drop i u)))
   \<and> ((\<forall>j. \<not> digits_at 9 u j) \<longrightarrow> ScribdAudioBook_init env u tr = (Inl AttributeError, tr))
   \<and> (\<forall>e. fst (ScribdAudioBook_init env u tr) = Inl e \<longrightarrow>
         e = AttributeError \<and> (\<forall>j. \<not> digits_at 9 u j))"
proof (intro conjI impI allI)
  assume h: "digits_at 9 u i \<and> (\<forall>j. digits_at 9 u j \<longrightarrow> j = i)"
  then have "\<forall>j<i. \<not> digits_at 9 u j" by auto
  with h have "re_search_digits 9 9 u = Some (take 9 (drop i u))"
    using re_search_digits_leftmost [of 9 u i] by simp
  then show "\<exists>s. ScribdAudioBook_init env u tr = (Inr s, tr) \<and> scribd_id s = take 9 (drop i u)"
    by (simp add: ScribdAudioBook_init_def)
next
  assume "\<forall>j. \<not> digits_at 9 u j"
  then have "re_search_digits 9 9 u = None"
    using re_search_digits_none [of 9 u] by simp
  then show "ScribdAudioBook_init env u tr = (Inl AttributeError, tr)"
    by (simp add: ScribdAudioBook_init_def)
next
  fix e assume f: "fst (ScribdAudioBook_init env u tr) = Inl e"
  then show "e = AttributeError"
    by (auto simp: ScribdAudioBook_init_def split: option.splits)
next
  fix e j assume f: "fst (ScribdAudioBook_init env u tr) = Inl e"
  then have n: "re_search_digits 9 9 u = None"
    by (auto simp: ScribdAudioBook_init_def split: option.splits)
  show "\<not> digits_at 9 u j"
  proof
    assume "digits_at 9 u j"
    then obtain k where "digits_at 9 u k" "\<forall>j<k. \<not> digits_at 9 u j"
      using digits_at_least by blast
    then have "re_search_digits 9 9 u = Some (take 9 (drop k u))"
      using re_search_digits_leftmost [of 9 u k] by simp
    with n show False by simp
  qed
qed

lemma example_unique: "digits_at 9 ''a/123456789'' j \<Longrightarrow> j = 2"
proof -
  assume d: "digits_at 9 ''a/123456789'' j"
  then have "j \<le> 2" by (simp add: digits_at_def)
  then consider "j = 0" | "j = 1" | "j = 2" by linarith
  then show ?thesis using d by cases (simp_all add: digits_at_def is_digit_def)
qed

theorem scribd_id_unique_run_witness:
  "digits_at 9 ''a/123456789'' 2
   \<and> (\<exists>s. ScribdAudioBook_init example_env ''a/123456789'' [] = (Inr s, [])
          \<and> scribd_id s = ''123456789'')
   \<and> ScribdAudioBook_init example_env ''abc'' [] = (Inl AttributeError, [])
   \<and> fst (ScribdAudioBook_init example_env ''abc'' []) = Inl AttributeError"
proof -
  have a: "digits_at 9 ''a/123456789'' 2" by (simp add: digits_at_def is_digit_def)
  have b: "\<forall>j. digits_at 9 ''a/123456789'' j \<longrightarrow> j = 2" using example_unique by blast
  have c: "\<forall>j. \<not> digits_at 9 ''abc'' j" by (simp add: digits_at_def)
  have t1: "\<exists>s. ScribdAudioBook_init example_env ''a/123456789'' [] = (Inr s, [])
          \<and> scribd_id s = take 9 (drop 2 ''a/123456789'')"
    using scribd_id_unique_run [of "''a/123456789''" 2 example_env "[]"] a b by blast
  have t2: "ScribdAudioBook_init example_env ''abc'' [] = (Inl AttributeError, [])"
    using scribd_id_unique_run [of "''abc''" 0 example_env "[]"] c by blast
  from t1 t2 a show ?thesis by simp
qed

text \<open>
  C10. Whenever some window of nine digits occurs in the content URL, \<open>scribd_id\<close> is the
  leftmost one: the first nine digits of the first run that is long enough, whatever
  follows. The search runs in the constructor, which makes no request (the events are
  unchanged and nothing has been scraped); with no such window the constructor itself
  raises.
\<close>

theorem scribd_id_leftmost:
  "((\<exists>i. digits_at 9 u i) \<longrightarrow>
      (\<exists>s k. ScribdAudioBook_init env u tr = (Inr s, tr)
             \<and> digits_at 9 u k \<and> (\<forall>j<k. \<not> digits_at 9 u j)
             \<and> scribd_id s = take 9 (drop k u)
             \<and> m_audiobook_keys s = None))
   \<and> ((\<forall>i. \<not> digits_at 9 u i) \<longrightarrow> ScribdAudioBook_init env u tr = (Inl AttributeError, tr))"
proof (intro conjI impI)
  assume "\<exists>i. digits_at 9 u i"
  then obtain k where k: "digits_at 9 u k" "\<forall>j<k. \<not> digits_at 9 u j"
    using digits_at_least by blast
  then have "re_search_digits 9 9 u = Some (take 9 (drop k u))"
    using re_search_digits_leftmost [of 9 u k] by simp
  then have "\<exists>s. ScribdAudioBook_init env u tr = (Inr s, tr)
      \<and> scribd_id s = take 9 (drop k u) \<and> m_audiobook_keys s = None"
    by (simp add: ScribdAudioBook_init_def)
  with k show "\<exists>s k. ScribdAudioBook_init env u tr = (Inr s, tr)
             \<and> digits_at 9 u k \<and> (\<forall>j<k. \<not> digits_at 9 u j)
             \<and> scribd_id s = take 9 (drop k u)
             \<and> m_audiobook_keys s = None" by blast
next
  assume "\<forall>i. \<not> digits_at 9 u i"
  then have "re_search_digits 9 9 u = None"
    using re_search_digits_none [of 9 u] by simp
  then show "ScribdAudioBook_init env u tr = (Inl AttributeError, tr)"
    by (simp add: ScribdAudioBook_init_def)
qed

theorem scribd_id_leftmost_witness:
  "digits_at 9 ''x/1234567890/987654321'' 2
   \<and> (\<exists>s k. ScribdAudioBook_init example_env ''x/1234567890/987654321'' [] = (Inr s, [])
          \<and> digits_at 9 ''x/1234567890/987654321'' k
          \<and> (\<forall>j<k. \<not> digits_at 9 ''x/1234567890/987654321'' j)
          \<and> scribd_id s = take 9 (drop k ''x/1234567890/987654321'')
          \<and> m_audiobook_keys s = None)
   \<and> scribd_id (projr (fst (ScribdAudioBook_init example_env ''x/1234567890/987654321'' [])))
       = ''123456789''
   \<and> ScribdAudioBook_init example_env ''no-digits'' [] = (Inl AttributeError, [])"
proof -
  have a: "digits_at 9 ''x/1234567890/987654321'' 2" by (simp add: digits_at_def is_digit_def)
  have c: "\<forall>j. \<not> digits_at 9 ''no-digits'' j"
  proof
    fix j show "\<not> digits_at 9 ''no-digits'' j"
      by (cases "j = 0") (simp_all add: digits_at_def is_digit_def)
  qed
  have t1: "\<exists>s k. ScribdAudioBook_init example_env ''x/1234567890/987654321'' [] = (Inr s, [])
          \<and> digits_at 9 ''x/1234567890/987654321'' k
          \<and> (\<forall>j<k. \<not> digits_at 9 ''x/1234567890/987654321'' j)
          \<and> scribd_id s = take 9 (drop k ''x/1234567890/987654321'')
          \<and> m_audiobook_keys s = None"
    using scribd_id_leftmost [of "''x/1234567890/987654321''" example_env "[]"] a by blast
  have t2: "ScribdAudioBook_init example_env ''no-digits'' [] = (Inl AttributeError, [])"
    using scribd_id_leftmost [of "''no-digits''" example_env "[]"] c by blast
  have t3: "scribd_id (projr (fst (ScribdAudioBook_init example_env ''x/1234567890/987654321'' [])))
       = ''123456789''"
    by (simp add: ScribdAudioBook_init_def is_digit_def)
  from a t1 t2 t3 show ?thesis by blast
qed

section \<open>Building the playlist from a server record\<close>

lemma Track_init_ok:
  "entry_ok e \<Longrightarrow> \<exists>t. Track_init e = Inr t"
  by (cases e) (auto simp: entry_ok_def Track_init_def)

lemma Track_init_fields:
  "Track_init e = Inr t \<Longrightarrow>
     track_dict t = e \<and> getitem_str e ''url'' = Inr (url t)
     \<and> getitem_str e ''part_number'' = Inr (part_number t)
     \<and> getitem_str e ''chapter_number'' = Inr (chapter_number t)"
  by (auto simp: Track_init_def split: sum.splits)

lemma make_tracks_ok:
  "list_all entry_ok es \<Longrightarrow> \<exists>ts. make_tracks es = Inr ts"
proof (induction es)
  case Nil
  then show ?case by simp
next
  case (Cons e es)
  then obtain t ts where "Track_init e = Inr t" "make_tracks es = Inr ts"
    using Track_init_ok [of e] by auto
  then show ?case by simp
qed

lemma make_tracks_fields:
  "make_tracks es = Inr ts \<Longrightarrow>
     map track_dict ts = es \<and> list_all2 (\<lambda>e t. Track_init e = Inr t) es ts"
proof (induction es arbitrary: ts)
  case Nil
  then show ?case by simp
next
  case (Cons e es)
  then show ?case
    by (auto split: sum.splits dest: Track_init_fields)
qed

text \<open>
  C4. For a server record whose \<^verbatim>\<open>playlist\<close> entry is an array, the constructor of
  \<open>Playlist\<close> succeeds when every entry has the three keys, and whenever it succeeds the
  tracks are the entries, one for one and in the same order: track \<open>i\<close> is built from
  entry \<open>i\<close> and carries its \<^verbatim>\<open>url\<close>, \<^verbatim>\<open>part_number\<close> and \<^verbatim>\<open>chapter_number\<close>
  unchanged. Nothing is reordered, dropped or merged.
\<close>

theorem playlist_tracks_follow_record:
  assumes "getitem_str pl ''playlist'' = Inr (JArr es)"
  shows "(list_all entry_ok es \<longrightarrow> (\<exists>P. Playlist_init ttl pl = Inr P))
    \<and> (\<forall>P. Playlist_init ttl pl = Inr P \<longrightarrow>
          length (tracks P) = length es
          \<and> map track_dict (tracks P) = es
          \<and> (\<forall>i<length es.
                getitem_str (es ! i) ''url'' = Inr (url (tracks P ! i))
                \<and> getitem_str (es ! i) ''part_number'' = Inr (part_number (tracks P ! i))
                \<and> getitem_str (es ! i) ''chapter_number'' = Inr (chapter_number (tracks P ! i)))
          \<and> playlist_title P = ttl \<and> playlist_dict P = pl \<and> download_paths P = [])"
proof (rule conjI)
  show "list_all entry_ok es \<longrightarrow> (\<exists>P. Playlist_init ttl pl = Inr P)"
  proof
    assume "list_all entry_ok es"
    then obtain ts where "make_tracks es = Inr ts" using make_tracks_ok by blast
    then show "\<exists>P. Playlist_init ttl pl = Inr P"
      using assms by (simp add: Playlist_init_def)
  qed
next
  show "\<forall>P. Playlist_init ttl pl = Inr P \<longrightarrow>
          length (tracks P) = length es
          \<and> map track_dict (tracks P) = es
          \<and> (\<forall>i<length es.
                getitem_str (es ! i) ''url'' = Inr (url (tracks P ! i))
                \<and> getitem_str (es ! i) ''part_number'' = Inr (part_number (tracks P ! i))
                \<and> getitem_str (es ! i) ''chapter_number'' = Inr (chapter_number (tracks P ! i)))
          \<and> playlist_title P = ttl \<and> playlist_dict P = pl \<and> download_paths P = []"
  proof (rule allI, rule impI)
    fix P assume P: "Playlist_init ttl pl = Inr P"
    then have mt: "make_tracks es = Inr (tracks P)"
      and rest: "playlist_title P = ttl" "playlist_dict P = pl" "download_paths P = []"
      using assms by (auto simp: Playlist_init_def split: sum.splits)
    from make_tracks_fields [OF mt]
    have m: "map track_dict (tracks P) = es"
      and l2: "list_all2 (\<lambda>e t. Track_init e = Inr t) es (tracks P)" by simp_all
    from l2 have len: "length (tracks P) = length es" by (simp add: list_all2_lengthD)
    have each: "\<forall>i<length es.
        getitem_str (es ! i) ''url'' = Inr (url (tracks P ! i))
        \<and> getitem_str (es ! i) ''part_number'' = Inr (part_number (tracks P ! i))
        \<and> getitem_str (es ! i) ''chapter_number'' = Inr (chapter_number (tracks P ! i))"
    proof (intro allI impI)
      fix i assume "i < length es"
      then have "Track_init (es ! i) = Inr (tracks P ! i)"
        using l2 list_all2_nthD [of "\<lambda>e t. Track_init e = Inr t" es "tracks P" i] by simp
      then show "getitem_str (es ! i) ''url'' = Inr (url (tracks P ! i))
        \<and> getitem_str (es ! i) ''part_number'' = Inr (part_number (tracks P ! i))
        \<and> getitem_str (es ! i) ''chapter_number'' = Inr (chapter_number (tracks P ! i))"
        using Track_init_fields by blast
    qed
    from len m each rest
    show "length (tracks P) = length es
          \<and> map track_dict (tracks P) = es
          \<and> (\<forall>i<length es.
                getitem_str (es ! i) ''url'' = Inr (url (tracks P ! i))
                \<and> getitem_str (es ! i) ''part_number'' = Inr (part_number (tracks P ! i))
                \<and> getitem_str (es ! i) ''chapter_number'' = Inr (chapter_number (tracks P ! i)))
          \<and> playlist_title P = ttl \<and> playlist_dict P = pl \<and> download_paths P = []"
      by blast
  qed
qed






theorem playlist_tracks_follow_record_witness:
  "getitem_str example_record ''playlist'' = Inr (JArr example_entries)
   \<and> list_all entry_ok example_entries
   \<and> (\<exists>P. Playlist_init ''T'' example_record = Inr P
          \<and> length (tracks P) = length example_entries
          \<and> map track_dict (tracks P) = example_entries
          \<and> map url (tracks P) = [JStr ''u2'', JStr ''u1'', JStr ''u2'']
          \<and> map chapter_number (tracks P) = [JInt 2, JInt 1, JInt 2])"
proof -
  have a: "getitem_str example_record ''playlist'' = Inr (JArr example_entries)"
    by (simp add: example_record_def)
  have b: "list_all entry_ok example_entries"
    by (simp add: example_entries_def entry_ok_def)
  from playlist_tracks_follow_record [OF a, of "''T''"] b
  obtain P where P: "Playlist_init ''T'' example_record = Inr P"
    and l: "length (tracks P) = length example_entries"
    and m: "map track_dict (tracks P) = example_entries" by blast
  have "Playlist_init ''T'' example_record = Inr
     \<lparr>playlist_title = ''T'',
      tracks = [\<lparr>url = JStr ''u2'', part_number = JInt 0, chapter_number = JInt 2,
                  track_dict = example_entries ! 0\<rparr>,
                \<lparr>url = JStr ''u1'', part_number = JInt 0, chapter_number = JInt 1,
                  track_dict = example_entries ! 1\<rparr>,
                \<lparr>url = JStr ''u2'', part_number = JInt 0, chapter_number = JInt 2,
                  track_dict = example_entries ! 2\<rparr>],
      playlist_dict = example_record, download_paths = []\<rparr>"
    by (simp add: Playlist_init_def example_record_def example_entries_def Track_init_def)
  with P have "map url (tracks P) = [JStr ''u2'', JStr ''u1'', JStr ''u2'']"
    "map chapter_number (tracks P) = [JInt 2, JInt 1, JInt 2]" by auto
  with a b P l m show ?thesis by (intro conjI exI [of _ P]) simp_all
qed

section \<open>Downloading\<close>

lemma transfer_result_0:
  "transfer_result env ttl (t # ts) tr 0 =
     download_stream env (tr @ [Print (dl_str env t (track_path env ttl t))])
       (url t) (track_path env ttl t)"
  by (simp add: transfer_result_def)

lemma transfer_result_Suc:
  "transfer_result env ttl (t # ts) tr (Suc k) =
     transfer_result env ttl ts (tr @ attempt_events env ttl t) k"
  by (simp add: transfer_result_def)

lemma download_loop_all:
  "(\<forall>i<length ts. transfer_result env ttl ts tr i = None) \<Longrightarrow>
     download_loop env ttl ts paths tr =
       (None, paths @ map (track_path env ttl) ts,
        tr @ concat (map (attempt_events env ttl) ts))"
proof (induction ts arbitrary: paths tr)
  case Nil
  then show ?case by simp
next
  case (Cons t ts)
  have first: "download_stream env (tr @ [Print (dl_str env t (track_path env ttl t))])
       (url t) (track_path env ttl t) = None"
    using Cons.prems [rule_format, of 0] by (simp add: transfer_result_0)
  have rest: "\<forall>i<length ts. transfer_result env ttl ts (tr @ attempt_events env ttl t) i = None"
  proof (intro allI impI)
    fix i assume "i < length ts"
    then show "transfer_result env ttl ts (tr @ attempt_events env ttl t) i = None"
      using Cons.prems [rule_format, of "Suc i"] by (simp add: transfer_result_Suc)
  qed
  have "download_loop env ttl (t # ts) paths tr =
      download_loop env ttl ts (paths @ [track_path env ttl t]) (tr @ attempt_events env ttl t)"
    using first by (simp add: Track_download_def attempt_events_def)
  then show ?case using Cons.IH [OF rest] by simp
qed

lemma download_loop_fails:
  "k < length ts \<Longrightarrow> (\<forall>i<k. transfer_result env ttl ts tr i = None) \<Longrightarrow>
   transfer_result env ttl ts tr k = Some e \<Longrightarrow>
     download_loop env ttl ts paths tr =
       (Some e, paths @ map (track_path env ttl) (take k ts),
        tr @ concat (map (attempt_events env ttl) (take (Suc k) ts)))"
proof (induction ts arbitrary: paths tr k)
  case Nil
  then show ?case by simp
next
  case (Cons t ts)
  show ?case
  proof (cases k)
    case 0
    then have "download_stream env (tr @ [Print (dl_str env t (track_path env ttl t))])
       (url t) (track_path env ttl t) = Some e"
      using Cons.prems(3) by (simp add: transfer_result_0)
    then show ?thesis using 0 by (simp add: Track_download_def attempt_events_def)
  next
    case (Suc m)
    have first: "download_stream env (tr @ [Print (dl_str env t (track_path env ttl t))])
       (url t) (track_path env ttl t) = None"
      using Cons.prems(2) [rule_format, of 0] Suc by (simp add: transfer_result_0)
    have m: "m < length ts" using Cons.prems(1) Suc by simp
    have before: "\<forall>i<m. transfer_result env ttl ts (tr @ attempt_events env ttl t) i = None"
    proof (intro allI impI)
      fix i assume "i < m"
      then show "transfer_result env ttl ts (tr @ attempt_events env ttl t) i = None"
        using Cons.prems(2) [rule_format, of "Suc i"] Suc by (simp add: transfer_result_Suc)
    qed
    have at: "transfer_result env ttl ts (tr @ attempt_events env ttl t) m = Some e"
      using Cons.prems(3) Suc by (simp add: transfer_result_Suc)
    have "download_loop env ttl (t # ts) paths tr =
        download_loop env ttl ts (paths @ [track_path env ttl t]) (tr @ attempt_events env ttl t)"
      using first by (simp add: Track_download_def attempt_events_def)
    then show ?thesis using Cons.IH [OF m before at] Suc by simp
  qed
qed

text \<open>The loop on a list is the loop on a prefix, continued on the rest.\<close>

lemma download_loop_append:
  "download_loop env ttl (xs @ ys) paths tr =
     (case download_loop env ttl xs paths tr of
        (Some e, paths', tr') \<Rightarrow> (Some e, paths', tr')
      | (None, paths', tr') \<Rightarrow> download_loop env ttl ys paths' tr')"
proof (induction xs arbitrary: paths tr)
  case Nil
  then show ?case by simp
next
  case (Cons x xs)
  then show ?case by (simp add: Track_download_def split: option.splits)
qed

text \<open>Whatever the transfers do: the paths recorded are those of a prefix of the tracks,
  and the events added are the attempts on that prefix, plus the failed attempt if any.\<close>

lemma download_loop_invariant:
  "download_loop env ttl ts paths tr = (r, paths', tr') \<Longrightarrow>
     \<exists>m\<le>length ts.
       paths' = paths @ map (track_path env ttl) (take m ts)
       \<and> tr' = tr @ concat (map (attempt_events env ttl)
                              (take (if r = None then m else Suc m) ts))
       \<and> (if r = None then m = length ts else m < length ts)"
proof (induction ts arbitrary: paths tr)
  case Nil
  then show ?case by auto
next
  case (Cons t ts)
  show ?case
  proof (cases "download_stream env (tr @ [Print (dl_str env t (track_path env ttl t))])
       (url t) (track_path env ttl t)")
    case (Some e)
    then have "r = Some e" "paths' = paths" "tr' = tr @ attempt_events env ttl t"
      using Cons.prems by (simp_all add: Track_download_def attempt_events_def)
    then show ?thesis by (intro exI [of _ 0]) simp
  next
    case None
    then have "download_loop env ttl ts (paths @ [track_path env ttl t])
        (tr @ attempt_events env ttl t) = (r, paths', tr')"
      using Cons.prems by (simp add: Track_download_def attempt_events_def)
    from Cons.IH [OF this] obtain m where m: "m \<le> length ts"
      "paths' = (paths @ [track_path env ttl t]) @ map (track_path env ttl) (take m ts)"
      "tr' = (tr @ attempt_events env ttl t) @ concat (map (attempt_events env ttl)
                              (take (if r = None then m else Suc m) ts))"
      "if r = None then m = length ts else m < length ts" by blast
    then show ?thesis by (intro exI [of _ "Suc m"]) (auto split: if_splits)
  qed
qed

text \<open>
  C5. When the transfer of every track succeeds, \<open>Playlist.download\<close> returns normally
  and has appended one path per track, in playlist order; on a playlist as constructed
  (no path recorded yet) \<open>download_paths\<close> then has the length of the track list and
  its \<open>i\<close>-th entry is the title, an underscore, the chapter number of track \<open>i\<close> and
  \<^verbatim>\<open>.mp3\<close>.
\<close>

theorem download_records_every_track:
  assumes "\<forall>i<length (tracks p).
             transfer_result env (playlist_title p) (tracks p) tr i = None"
  shows "\<exists>p' tr'. Playlist_download env p tr = (None, p', tr')
     \<and> tracks p' = tracks p
     \<and> download_paths p' =
          download_paths p @ map (track_path env (playlist_title p)) (tracks p)
     \<and> (download_paths p = [] \<longrightarrow>
          length (download_paths p') = length (tracks p)
          \<and> (\<forall>i<length (tracks p).
                download_paths p' ! i =
                  playlist_title p @ ''_'' @ py_str env (chapter_number (tracks p ! i))
                    @ ''.mp3''))"
proof -
  let ?paths = "download_paths p @ map (track_path env (playlist_title p)) (tracks p)"
  let ?tr = "tr @ concat (map (attempt_events env (playlist_title p)) (tracks p))"
  have "Playlist_download env p tr = (None, p\<lparr>download_paths := ?paths\<rparr>, ?tr)"
    using download_loop_all [OF assms] by (simp add: Playlist_download_def)
  then show ?thesis
    by (intro exI [of _ "p\<lparr>download_paths := ?paths\<rparr>"] exI [of _ ?tr])
       (simp add: track_path_def)
qed

theorem download_records_every_track_witness:
  "Playlist_download example_env example_playlist [] =
     (None, example_playlist\<lparr>download_paths := [''T_2.mp3'', ''T_one.mp3'', ''T_2.mp3'']\<rparr>,
      snd (snd (Playlist_download example_env example_playlist [])))
   \<and> length (download_paths (fst (snd (Playlist_download example_env example_playlist []))))
       = length (tracks example_playlist)"
proof -
  have h: "\<forall>i<length (tracks example_playlist).
      transfer_result example_env (playlist_title example_playlist)
        (tracks example_playlist) [] i = None"
    by (simp add: transfer_result_def example_env_def)
  from download_records_every_track [OF h]
  obtain p' tr' where r: "Playlist_download example_env example_playlist [] = (None, p', tr')"
    and t: "tracks p' = tracks example_playlist"
    and d: "download_paths p' = download_paths example_playlist
       @ map (track_path example_env (playlist_title example_playlist)) (tracks example_playlist)"
    by blast
  have e: "download_paths p' = [''T_2.mp3'', ''T_one.mp3'', ''T_2.mp3'']"
    using d by (simp add: example_playlist_def track_path_def str_int_def str_nat.simps
        digit_char_def)
  have "p' = example_playlist\<lparr>download_paths := download_paths p'\<rparr>"
    using r by (auto simp: Playlist_download_def split: prod.splits)
  with e have "p' = example_playlist\<lparr>download_paths := [''T_2.mp3'', ''T_one.mp3'', ''T_2.mp3'']\<rparr>"
    by simp
  with r show ?thesis by (simp add: example_playlist_def)
qed

text \<open>
  C6. When the transfers of the tracks before \<open>k\<close> succeed and the transfer of track
  \<open>k\<close> raises, \<open>Playlist.download\<close> ends with that exception, the paths of the
  tracks \<open>0..k-1\<close> have been appended in order, and the events added are the attempts on
  the tracks \<open>0..k\<close> only: no later track is attempted. At every turn of the loop (the
  loop run on the first \<open>j\<close> tracks) the paths added are those of the first \<open>m\<close> tracks
  and the tracks attempted are the first \<open>a\<close>, with \<open>m \<le> a \<le> j\<close>.
\<close>

theorem download_aborts_at_failure:
  assumes "k < length (tracks p)"
    and "\<forall>i<k. transfer_result env (playlist_title p) (tracks p) tr i = None"
    and "transfer_result env (playlist_title p) (tracks p) tr k = Some e"
  shows "Playlist_download env p tr =
      (Some e,
       p\<lparr>download_paths :=
            download_paths p @ map (track_path env (playlist_title p)) (take k (tracks p))\<rparr>,
       tr @ concat (map (attempt_events env (playlist_title p)) (take (Suc k) (tracks p))))
    \<and> (\<forall>j r paths' tr'.
          j \<le> length (tracks p) \<and>
          download_loop env (playlist_title p) (take j (tracks p)) (download_paths p) tr
            = (r, paths', tr') \<longrightarrow>
          (\<exists>m a. m \<le> a \<and> a \<le> j
             \<and> paths' = download_paths p
                  @ map (track_path env (playlist_title p)) (take m (tracks p))
             \<and> tr' = tr @ concat (map (attempt_events env (playlist_title p))
                                    (take a (tracks p)))))"
proof (rule conjI)
  show "Playlist_download env p tr =
      (Some e,
       p\<lparr>download_paths :=
            download_paths p @ map (track_path env (playlist_title p)) (take k (tracks p))\<rparr>,
       tr @ concat (map (attempt_events env (playlist_title p)) (take (Suc k) (tracks p))))"
    using download_loop_fails [OF assms] by (simp add: Playlist_download_def)
next
  show "\<forall>j r paths' tr'.
          j \<le> length (tracks p) \<and>
          download_loop env (playlist_title p) (take j (tracks p)) (download_paths p) tr
            = (r, paths', tr') \<longrightarrow>
          (\<exists>m a. m \<le> a \<and> a \<le> j
             \<and> paths' = download_paths p
                  @ map (track_path env (playlist_title p)) (take m (tracks p))
             \<and> tr' = tr @ concat (map (attempt_events env (playlist_title p))
                                    (take a (tracks p))))"
  proof (intro allI impI)
    fix j r paths' tr'
    assume h: "j \<le> length (tracks p) \<and>
          download_loop env (playlist_title p) (take j (tracks p)) (download_paths p) tr
            = (r, paths', tr')"
    then have j: "j \<le> length (tracks p)" by simp
    from h download_loop_invariant [of env "playlist_title p" "take j (tracks p)"
        "download_paths p" tr r paths' tr']
    obtain m where m: "m \<le> length (take j (tracks p))"
      "paths' = download_paths p
         @ map (track_path env (playlist_title p)) (take m (take j (tracks p)))"
      "tr' = tr @ concat (map (attempt_events env (playlist_title p))
                 (take (if r = None then m else Suc m) (take j (tracks p))))"
      "if r = None then m = length (take j (tracks p)) else m < length (take j (tracks p))"
      by blast
    let ?a = "if r = None then m else Suc m"
    have mj: "m \<le> j" using m(1) by simp
    have aj: "?a \<le> j" using m(1,4) j by (auto split: if_splits)
    have "take m (take j (tracks p)) = take m (tracks p)" using mj by (simp add: min_def)
    moreover have "take ?a (take j (tracks p)) = take ?a (tracks p)"
      using aj by (simp add: min_def)
    ultimately have "m \<le> ?a \<and> ?a \<le> j
        \<and> paths' = download_paths p
             @ map (track_path env (playlist_title p)) (take m (tracks p))
        \<and> tr' = tr @ concat (map (attempt_events env (playlist_title p))
                                    (take ?a (tracks p)))"
      using m(2,3) aj by simp
    then show "\<exists>m a. m \<le> a \<and> a \<le> j
             \<and> paths' = download_paths p
                  @ map (track_path env (playlist_title p)) (take m (tracks p))
             \<and> tr' = tr @ concat (map (attempt_events env (playlist_title p))
                                    (take a (tracks p)))"
      by blast
  qed
qed

theorem download_aborts_at_failure_witness:
  \<open>transfer_result failing_env ''T'' (tracks example_playlist) [] 1 = Some RequestException
   \<and> Playlist_download failing_env example_playlist [] =
      (Some RequestException,
       example_playlist\<lparr>download_paths := [''T_2.mp3'']\<rparr>,
       [Print ''Downloading chapter-2 (u2) to "T_2.mp3"'',
        Download_stream (JStr ''u2'') ''T_2.mp3'',
        Print ''Downloading chapter-one (u1) to "T_one.mp3"'',
        Download_stream (JStr ''u1'') ''T_one.mp3''])\<close>
proof -
  have k: "(1::nat) < length (tracks example_playlist)" by (simp add: example_playlist_def)
  have a: "\<forall>i<(1::nat). transfer_result failing_env (playlist_title example_playlist)
      (tracks example_playlist) [] i = None"
    by (simp add: transfer_result_def failing_env_def example_env_def example_playlist_def)
  have b: "transfer_result failing_env (playlist_title example_playlist)
      (tracks example_playlist) [] 1 = Some RequestException"
    by (simp add: transfer_result_def failing_env_def example_env_def example_playlist_def)
  have t: "playlist_title example_playlist = ''T''" by (simp add: example_playlist_def)
  from download_aborts_at_failure [OF k a b]
  have "Playlist_download failing_env example_playlist [] =
      (Some RequestException,
       example_playlist\<lparr>download_paths :=
            download_paths example_playlist
              @ map (track_path failing_env (playlist_title example_playlist))
                    (take 1 (tracks example_playlist))\<rparr>,
       [] @ concat (map (attempt_events failing_env (playlist_title example_playlist))
                     (take (Suc 1) (tracks example_playlist))))"
    by blast
  then have \<open>Playlist_download failing_env example_playlist [] =
      (Some RequestException,
       example_playlist\<lparr>download_paths := [''T_2.mp3'']\<rparr>,
       [Print ''Downloading chapter-2 (u2) to "T_2.mp3"'',
        Download_stream (JStr ''u2'') ''T_2.mp3'',
        Print ''Downloading chapter-one (u1) to "T_one.mp3"'',
        Download_stream (JStr ''u1'') ''T_one.mp3''])\<close>
    by (simp add: example_playlist_def track_path_def attempt_events_def dl_str_def
        str_int_def str_nat.simps digit_char_def failing_env_def example_env_def)
  with b t show ?thesis by simp
qed

section \<open>The two arms of the playlist\<close>

lemma audiobook_keys_stored:
  "audiobook_keys env s tr = (Inr ak, s', tr') \<Longrightarrow> m_audiobook_keys s' = Some ak"
  by (auto simp: audiobook_keys_def bnd_def split: option.splits prod.splits sum.splits)

lemma audiobook_keys_cached:
  "m_audiobook_keys s = Some ak \<Longrightarrow> audiobook_keys env s tr = (Inr ak, s, tr)"
  by (simp add: audiobook_keys_def)

lemma author_id_falsy_scraped:
  assumes "author_id env s tr = (Inr a, s1, tr1)" and "\<not> truthy_str a"
  shows "\<exists>ak. m_audiobook_keys s1 = Some ak"
proof (cases "truthy_str (m_author_id s)")
  case True
  then obtain c cs where "m_author_id s = Some (c # cs)"
    by (cases "m_author_id s") (auto simp: neq_Nil_conv)
  then have "a = Some (c # cs)" using assms(1) by (simp add: author_id_def)
  then show ?thesis using assms(2) by simp
next
  case False
  then have "author_id env s tr =
      bnd (audiobook_keys env)
          (\<lambda>ak s' tr'. (Inr (ak_author_id ak), s'\<lparr>m_author_id := ak_author_id ak\<rparr>, tr')) s tr"
    by (auto simp: author_id_def split: option.splits list.splits)
  with assms(1) obtain ak s' where k: "audiobook_keys env s tr = (Inr ak, s', tr1)"
    and s1: "s1 = s'\<lparr>m_author_id := ak_author_id ak\<rparr>"
    by (auto simp: bnd_def split: prod.splits sum.splits)
  from audiobook_keys_stored [OF k] s1 show ?thesis by simp
qed

lemma preview_url_after_scrape:
  assumes "m_audiobook_keys s = Some ak"
  shows "\<exists>u s2. preview_url env s tr = (Inr u, s2, tr)"
  using audiobook_keys_cached [OF assms, of env tr]
  by (auto simp: preview_url_def bnd_def split: option.splits list.splits)

lemma premium_cookies_author_id:
  "author_id env s tr = (Inr a, s1, tr1) \<Longrightarrow>
     premium_cookies env s tr = (Inr (truthy_str a), s1, tr1)"
  by (simp add: premium_cookies_def bnd_def lift_def)

lemma make_playlist_arm:
  "author_id env s tr = (Inr a, s1, tr1) \<Longrightarrow>
     make_playlist env s tr =
       (if truthy_str a then premium_playlist env s1 tr1 else preview_playlist env s1 tr1)"
  by (simp add: make_playlist_def bnd_def premium_cookies_author_id)

lemma preview_playlist_result:
  "preview_url env s tr = (Inr u, s2, tr2) \<Longrightarrow>
     preview_playlist env s tr = (Inr (preview_dict u), s2, tr2)"
  by (simp add: preview_playlist_def bnd_def lift_def preview_dict_def)

lemma Playlist_init_preview:
  "Playlist_init ttl (preview_dict u) =
     Inr \<lparr>playlist_title = ttl,
          tracks = [\<lparr>url = JStr u, part_number = JStr ''preview'',
                     chapter_number = JStr ''preview'',
                     track_dict = JObj [(''url'', JStr u),
                                        (''part_number'', JStr ''preview''),
                                        (''chapter_number'', JStr ''preview'')]\<rparr>],
          playlist_dict = preview_dict u, download_paths = []\<rparr>"
  by (simp add: Playlist_init_def preview_dict_def Track_init_def)

lemma fallback_when_falsy:
  assumes "author_id env s tr = (Inr a, s1, tr1)" and "\<not> truthy_str a"
  shows "\<exists>u s2. preview_url env s1 tr1 = (Inr u, s2, tr1)
     \<and> make_playlist env s tr = (Inr (preview_dict u), s2, tr1)"
proof -
  from author_id_falsy_scraped [OF assms] obtain ak where "m_audiobook_keys s1 = Some ak" ..
  from preview_url_after_scrape [OF this, of env tr1]
  obtain u s2 where u: "preview_url env s1 tr1 = (Inr u, s2, tr1)" by blast
  have "make_playlist env s tr = preview_playlist env s1 tr1"
    using make_playlist_arm [OF assms(1)] assms(2) by simp
  with preview_playlist_result [OF u] u show ?thesis by simp
qed

text \<open>
  C1. Whatever the session and the events so far: when \<open>author_id\<close> resolves to
  \<^verbatim>\<open>None\<close>, \<open>make_playlist\<close> returns, with no further request, the dict whose
  \<^verbatim>\<open>playlist\<close> list has exactly one entry, and the one track built from it has the
  session's preview URL as its \<open>url\<close> and \<^verbatim>\<open>preview\<close> as its \<open>part_number\<close> and its
  \<open>chapter_number\<close>.
\<close>

theorem preview_playlist_without_author:
  assumes "author_id env s tr = (Inr None, s1, tr1)"
  shows "\<exists>u s2 t. preview_url env s1 tr1 = (Inr u, s2, tr1)
     \<and> make_playlist env s tr = (Inr (preview_dict u), s2, tr1)
     \<and> getitem_str (preview_dict u) ''playlist'' = Inr (JArr [track_dict t])
     \<and> Playlist_init ttl (preview_dict u) =
          Inr \<lparr>playlist_title = ttl, tracks = [t], playlist_dict = preview_dict u,
               download_paths = []\<rparr>
     \<and> url t = JStr u \<and> part_number t = JStr ''preview''
     \<and> chapter_number t = JStr ''preview''"
proof -
  from fallback_when_falsy [OF assms] obtain u s2
    where u: "preview_url env s1 tr1 = (Inr u, s2, tr1)"
      and m: "make_playlist env s tr = (Inr (preview_dict u), s2, tr1)" by auto
  let ?t = "\<lparr>url = JStr u, part_number = JStr ''preview'',
                     chapter_number = JStr ''preview'',
                     track_dict = JObj [(''url'', JStr u),
                                        (''part_number'', JStr ''preview''),
                                        (''chapter_number'', JStr ''preview'')]\<rparr>"
  have g: "getitem_str (preview_dict u) ''playlist'' = Inr (JArr [track_dict ?t])"
    by (simp add: preview_dict_def)
  from u m g Playlist_init_preview [of ttl u] show ?thesis
    by (intro exI [of _ u] exI [of _ s2] exI [of _ ?t]) simp
qed

text \<open>
  C9. \<open>premium_cookies\<close> is the truthiness of the resolved author id, and
  \<open>make_playlist\<close> is the premium arm when it is truthy and the preview arm when it is
  not; two sessions whose author ids are alike in truthiness get the same test result,
  whatever their worlds and cookies; a falsy author id (\<^verbatim>\<open>None\<close> or the empty string)
  gives the preview playlist.
\<close>

theorem branch_follows_author_id:
  assumes "author_id env s tr = (Inr a, s1, tr1)"
  shows "premium_cookies env s tr = (Inr (truthy_str a), s1, tr1)
     \<and> make_playlist env s tr =
          (if truthy_str a then premium_playlist env s1 tr1 else preview_playlist env s1 tr1)
     \<and> (\<forall>env' s' tr' a' s1' tr1'.
            author_id env' s' tr' = (Inr a', s1', tr1') \<and> truthy_str a' = truthy_str a
            \<longrightarrow> fst (premium_cookies env' s' tr') = fst (premium_cookies env s tr))
     \<and> (\<not> truthy_str a \<longrightarrow>
            (\<exists>u s2. make_playlist env s tr = (Inr (preview_dict u), s2, tr1)))"
proof (intro conjI allI impI)
  show "premium_cookies env s tr = (Inr (truthy_str a), s1, tr1)"
    using assms by (rule premium_cookies_author_id)
  show "make_playlist env s tr =
          (if truthy_str a then premium_playlist env s1 tr1 else preview_playlist env s1 tr1)"
    using assms by (rule make_playlist_arm)
next
  fix env' s' tr' a' s1' tr1'
  assume "author_id env' s' tr' = (Inr a', s1', tr1') \<and> truthy_str a' = truthy_str a"
  then show "fst (premium_cookies env' s' tr') = fst (premium_cookies env s tr)"
    using premium_cookies_author_id [of env' s' tr' a' s1' tr1']
      premium_cookies_author_id [OF assms] by simp
next
  assume "\<not> truthy_str a"
  from fallback_when_falsy [OF assms this]
  show "\<exists>u s2. make_playlist env s tr = (Inr (preview_dict u), s2, tr1)" by blast
qed

lemmas run_simps =
  author_id_def audiobook_keys_def scrape_audiobook_def scrape_page_def request_def
  bnd_def lift_def preview_env_def flaky_env_def example_session_def last_item_def
  is_digit_def example_url_def preview_url_def book_id_def loads_def

lemma preview_author: "fst (author_id preview_env (example_session preview_env example_url) []) = Inr None"
  by (simp add: run_simps)

lemma premium_author: "fst (author_id flaky_env (example_session flaky_env example_url) [])
   = Inr (Some ''12345678'')"
  by (simp add: run_simps)

lemma preview_make:
  "fst (make_playlist preview_env (example_session preview_env example_url) [])
     = Inr (preview_dict ''https://cdn.example/12345/s.mp3'')"
  by (simp add: run_simps make_playlist_def premium_cookies_def preview_playlist_def
      preview_dict_def)

theorem preview_playlist_without_author_witness:
  "fst (author_id preview_env (example_session preview_env example_url) []) = Inr None
   \<and> fst (make_playlist preview_env (example_session preview_env example_url) [])
       = Inr (preview_dict ''https://cdn.example/12345/s.mp3'')
   \<and> (\<exists>t. map tracks [projr (Playlist_init ''My_Great_Book''
                 (preview_dict ''https://cdn.example/12345/s.mp3''))] = [[t]]
          \<and> url t = JStr ''https://cdn.example/12345/s.mp3''
          \<and> part_number t = JStr ''preview'' \<and> chapter_number t = JStr ''preview'')"
proof -
  obtain s1 tr1 where
    a: "author_id preview_env (example_session preview_env example_url) [] = (Inr None, s1, tr1)"
    using preview_author by (cases "author_id preview_env (example_session preview_env example_url) []") auto
  from preview_playlist_without_author [OF a, of "''My_Great_Book''"]
  obtain u s2 t where
    m: "make_playlist preview_env (example_session preview_env example_url) []
          = (Inr (preview_dict u), s2, tr1)"
    and p: "Playlist_init ''My_Great_Book'' (preview_dict u) =
          Inr \<lparr>playlist_title = ''My_Great_Book'', tracks = [t],
               playlist_dict = preview_dict u, download_paths = []\<rparr>"
    and f: "url t = JStr u" "part_number t = JStr ''preview''"
       "chapter_number t = JStr ''preview''"
    by blast
  from m preview_make have "preview_dict u = preview_dict ''https://cdn.example/12345/s.mp3''"
    by simp
  then have u: "u = ''https://cdn.example/12345/s.mp3''" by (simp add: preview_dict_def)
  from a m p f u show ?thesis by (intro conjI exI [of _ t]) simp_all
qed

theorem branch_follows_author_id_witness:
  "fst (author_id preview_env (example_session preview_env example_url) []) = Inr None
   \<and> fst (premium_cookies preview_env (example_session preview_env example_url) []) = Inr False
   \<and> fst (make_playlist preview_env (example_session preview_env example_url) [])
       = Inr (preview_dict ''https://cdn.example/12345/s.mp3'')
   \<and> fst (author_id flaky_env (example_session flaky_env example_url) [])
       = Inr (Some ''12345678'')
   \<and> fst (premium_cookies flaky_env (example_session flaky_env example_url) []) = Inr True
   \<and> fst (make_playlist flaky_env (example_session flaky_env example_url) [])
       = Inr example_record"
proof -
  obtain s1 tr1 where
    a: "author_id preview_env (example_session preview_env example_url) [] = (Inr None, s1, tr1)"
    using preview_author by (cases "author_id preview_env (example_session preview_env example_url) []") auto
  obtain s2 tr2 where
    b: "author_id flaky_env (example_session flaky_env example_url) []
          = (Inr (Some ''12345678''), s2, tr2)"
    using premium_author by (cases "author_id flaky_env (example_session flaky_env example_url) []") auto
  from branch_follows_author_id [OF a]
  have a1: "premium_cookies preview_env (example_session preview_env example_url) []
      = (Inr (truthy_str None), s1, tr1)" by blast
  from branch_follows_author_id [OF b]
  have b1: "premium_cookies flaky_env (example_session flaky_env example_url) []
      = (Inr (truthy_str (Some ''12345678'')), s2, tr2)" by blast
  have b2: "fst (make_playlist flaky_env (example_session flaky_env example_url) [])
       = Inr example_record"
    by (simp add: run_simps make_playlist_def premium_cookies_def premium_playlist_def
      license_id_def authenticate_url_def license_url_def playlist_url_def
      license_of_response_def)
  from a b a1 b1 b2 preview_make show ?thesis by simp
qed

section \<open>The title\<close>

text \<open>
  C3. The title of the URL \<^verbatim>\<open>https://x.com/123456789/My-Great-Book/\<close>, as the code
  computes it: the split has two empty segments, \<^verbatim>\<open>remove("")\<close> takes the first one
  only (the one after \<^verbatim>\<open>https:\<close>), the last segment is the empty one after the
  trailing slash, and the title is the empty string. Without the trailing slash the
  title is \<^verbatim>\<open>My Great Book\<close> and the file name stem \<^verbatim>\<open>My_Great_Book\<close>.
\<close>

theorem title_of_trailing_slash_url:
  "ScribdAudioBook_init example_env slash_url [] = (Inr (example_session example_env slash_url), [])
   \<and> split_char CHR ''/'' slash_url
        = [''https:'', '''', ''x.com'', ''123456789'', ''My-Great-Book'', '''']
   \<and> list_remove '''' (split_char CHR ''/'' slash_url)
        = Inr [''https:'', ''x.com'', ''123456789'', ''My-Great-Book'', '''']
   \<and> fst (title (example_session example_env slash_url) []) = Inr ''''
   \<and> fst (title (example_session example_env example_url) []) = Inr ''My Great Book''
   \<and> replace_char CHR '' '' CHR ''_'' ''My Great Book'' = ''My_Great_Book''"
  by (simp add: ScribdAudioBook_init_def example_session_def slash_url_def example_url_def
      is_digit_def title_def list_remove_def last_item_def replace_char_def)

section \<open>The license id\<close>

lemma audiobook_keys_license:
  "audiobook_keys env s tr = (r, s', tr') \<Longrightarrow> m_license_id s' = m_license_id s"
  by (auto simp: audiobook_keys_def bnd_def scrape_audiobook_def request_def lift_def
      split: option.splits prod.splits sum.splits)

lemma author_id_license:
  "author_id env s tr = (r, s', tr') \<Longrightarrow> m_license_id s' = m_license_id s"
  by (auto simp: author_id_def bnd_def split: option.splits list.splits prod.splits sum.splits
      dest: audiobook_keys_license)

lemma book_id_license:
  "book_id env s tr = (r, s', tr') \<Longrightarrow> m_license_id s' = m_license_id s"
  by (auto simp: book_id_def bnd_def split: option.splits list.splits prod.splits sum.splits
      dest: audiobook_keys_license)

lemma license_url_license:
  "license_url env s tr = (r, s', tr') \<Longrightarrow> m_license_id s' = m_license_id s"
  by (auto simp: license_url_def bnd_def split: option.splits list.splits prod.splits sum.splits
      dest!: author_id_license book_id_license)

lemma authenticate_url_license:
  "authenticate_url s tr = (r, s', tr') \<Longrightarrow> m_license_id s' = m_license_id s \<and> tr' = tr"
  by (auto simp: authenticate_url_def split: option.splits list.splits)

lemma license_of_response_missing:
  "getitem_str j ''licenses'' = Inl KeyError \<Longrightarrow> license_of_response j = Inl KeyError"
  by (simp add: license_of_response_def)

lemma license_of_response_empty:
  "getitem_str j ''licenses'' = Inr (JArr []) \<Longrightarrow> license_of_response j = Inl IndexError"
  by (simp add: license_of_response_def)

text \<open>
  C7. When the license id is not yet stored, the steps before the license request
  succeed, and the body of the license endpoint's answer parses to a dict without a
  \<^verbatim>\<open>licenses\<close> key or with an empty \<^verbatim>\<open>licenses\<close> list, \<open>license_id\<close> raises
  (\<^verbatim>\<open>KeyError\<close> for the missing key, \<^verbatim>\<open>IndexError\<close> for the empty list): it returns no
  license id, and the stored license id is what it was, \<^verbatim>\<open>None\<close> in a session that had
  none.
\<close>

theorem license_id_fails_without_licenses:
  assumes "\<not> truthy (m_license_id s)"
    and "authenticate_url s tr = (Inr au, s1, tr1)"
    and "requests env tr1 (Get_cookies au (cookies s1)) = Inr body"
    and "license_url env s1 (tr1 @ [Get_cookies au (cookies s1)]) = (Inr lu, s2, tr2)"
    and "requests env tr2 (Get_headers lu (session_key_header s2)) = Inr text"
    and "json_loads env text = Some j"
    and "getitem_str j ''licenses'' = Inl KeyError \<or> getitem_str j ''licenses'' = Inr (JArr [])"
  shows "license_id env s tr =
      (Inl (if getitem_str j ''licenses'' = Inl KeyError then KeyError else IndexError),
       s2, tr2 @ [Get_headers lu (session_key_header s2)])
    \<and> m_license_id s2 = m_license_id s
    \<and> (m_license_id s = JNull \<longrightarrow> m_license_id s2 = JNull)"
proof -
  have l: "license_of_response j =
      Inl (if getitem_str j ''licenses'' = Inl KeyError then KeyError else IndexError)"
    using assms(7) license_of_response_missing [of j] license_of_response_empty [of j]
    by auto
  have r: "license_id env s tr =
      (Inl (if getitem_str j ''licenses'' = Inl KeyError then KeyError else IndexError),
       s2, tr2 @ [Get_headers lu (session_key_header s2)])"
    using assms(1-6) l by (simp add: license_id_def bnd_def request_def lift_def loads_def)
  have "m_license_id s1 = m_license_id s" using authenticate_url_license [OF assms(2)] by simp
  moreover have "m_license_id s2 = m_license_id s1" using license_url_license [OF assms(4)] .
  ultimately show ?thesis using r by simp
qed

theorem license_id_fails_without_licenses_witness:
  "fst (license_id no_license_env (example_session no_license_env example_url) [])
     = Inl KeyError
   \<and> m_license_id (fst (snd (license_id no_license_env
         (example_session no_license_env example_url) []))) = JNull
   \<and> fst (license_id empty_license_env (example_session empty_license_env example_url) [])
     = Inl IndexError
   \<and> m_license_id (fst (snd (license_id empty_license_env
         (example_session empty_license_env example_url) []))) = JNull"
proof -
  let ?au = "''https://www.scribd.com/listen/123456789''"
  let ?lu = "''https://api.findawayworld.com/v4/accounts/scribd-12345678/audiobooks/12345''"
  have missing: "fst (license_id no_license_env (example_session no_license_env example_url) [])
     = Inl KeyError
   \<and> m_license_id (fst (snd (license_id no_license_env
         (example_session no_license_env example_url) []))) = JNull"
  proof -
    let ?s = "example_session no_license_env example_url"
    let ?j = "JObj [(''message'', JStr ''not found'')]"
    have n: "\<not> truthy (m_license_id ?s)" by (simp add: example_session_def)
    have a: "authenticate_url ?s [] = (Inr ?au, ?s\<lparr>m_authenticate_url := Some ?au\<rparr>, [])"
      by (simp add: authenticate_url_def example_session_def)
    have b: "requests no_license_env []
        (Get_cookies ?au (cookies (?s\<lparr>m_authenticate_url := Some ?au\<rparr>))) = Inr ''PAGE''"
      by (simp add: no_license_env_def flaky_env_def)
    have "fst (license_url no_license_env (?s\<lparr>m_authenticate_url := Some ?au\<rparr>)
        ([] @ [Get_cookies ?au (cookies (?s\<lparr>m_authenticate_url := Some ?au\<rparr>))])) = Inr ?lu"
      by (simp add: run_simps license_url_def no_license_env_def)
    then obtain s2 tr2 where
      c: "license_url no_license_env (?s\<lparr>m_authenticate_url := Some ?au\<rparr>)
        ([] @ [Get_cookies ?au (cookies (?s\<lparr>m_authenticate_url := Some ?au\<rparr>))])
          = (Inr ?lu, s2, tr2)"
      by (cases "license_url no_license_env (?s\<lparr>m_authenticate_url := Some ?au\<rparr>)
        ([] @ [Get_cookies ?au (cookies (?s\<lparr>m_authenticate_url := Some ?au\<rparr>))])") auto
    have d: "requests no_license_env tr2 (Get_headers ?lu (session_key_header s2))
        = Inr ''NO-LICENSE''"
      by (simp add: no_license_env_def flaky_env_def)
    have e: "json_loads no_license_env ''NO-LICENSE'' = Some ?j"
      by (simp add: no_license_env_def flaky_env_def)
    have f: "getitem_str ?j ''licenses'' = Inl KeyError
        \<or> getitem_str ?j ''licenses'' = Inr (JArr [])"
      by simp
    have g: "m_license_id ?s = JNull" by (simp add: example_session_def)
    from license_id_fails_without_licenses [OF n a b c d e f] g
    show ?thesis by simp
  qed
  have empty: "fst (license_id empty_license_env (example_session empty_license_env example_url) [])
     = Inl IndexError
   \<and> m_license_id (fst (snd (license_id empty_license_env
         (example_session empty_license_env example_url) []))) = JNull"
  proof -
    let ?s = "example_session empty_license_env example_url"
    let ?j = "JObj [(''licenses'', JArr [])]"
    have n: "\<not> truthy (m_license_id ?s)" by (simp add: example_session_def)
    have a: "authenticate_url ?s [] = (Inr ?au, ?s\<lparr>m_authenticate_url := Some ?au\<rparr>, [])"
      by (simp add: authenticate_url_def example_session_def)
    have b: "requests empty_license_env []
        (Get_cookies ?au (cookies (?s\<lparr>m_authenticate_url := Some ?au\<rparr>))) = Inr ''PAGE''"
      by (simp add: empty_license_env_def no_license_env_def flaky_env_def)
    have "fst (license_url empty_license_env (?s\<lparr>m_authenticate_url := Some ?au\<rparr>)
        ([] @ [Get_cookies ?au (cookies (?s\<lparr>m_authenticate_url := Some ?au\<rparr>))])) = Inr ?lu"
      by (simp add: run_simps license_url_def empty_license_env_def no_license_env_def)
    then obtain s2 tr2 where
      c: "license_url empty_license_env (?s\<lparr>m_authenticate_url := Some ?au\<rparr>)
        ([] @ [Get_cookies ?au (cookies (?s\<lparr>m_authenticate_url := Some ?au\<rparr>))])
          = (Inr ?lu, s2, tr2)"
      by (cases "license_url empty_license_env (?s\<lparr>m_authenticate_url := Some ?au\<rparr>)
        ([] @ [Get_cookies ?au (cookies (?s\<lparr>m_authenticate_url := Some ?au\<rparr>))])") auto
    have d: "requests empty_license_env tr2 (Get_headers ?lu (session_key_header s2))
        = Inr ''NO-LICENSE''"
      by (simp add: empty_license_env_def no_license_env_def flaky_env_def)
    have e: "json_loads empty_license_env ''NO-LICENSE'' = Some ?j"
      by (simp add: empty_license_env_def no_license_env_def flaky_env_def)
    have f: "getitem_str ?j ''licenses'' = Inl KeyError
        \<or> getitem_str ?j ''licenses'' = Inr (JArr [])"
      by simp
    have g: "m_license_id ?s = JNull" by (simp add: example_session_def)
    from license_id_fails_without_licenses [OF n a b c d e f] g
    show ?thesis by simp
  qed
  from missing empty show ?thesis by simp
qed

section \<open>Memoised properties\<close>
















end
